theory Spec2Isabelle
  imports Main "HOL-Library.Char_ord" "HOL-Library.List_Lexorder" "HOL-Library.Multiset"
begin

section \<open>Shop sections tracker: data model\<close>

text \<open>
  The program (\<^verbatim>\<open>src/main.py\<close>) polls a catalog endpoint, turns every section of
  the response into a comparison record, compares it with the record stored in
  \<^verbatim>\<open>old_shop_data.json\<close>, posts one embed per changed section to a webhook and
  rewrites the file when the whole mapping changed.

  The JSON documents are modelled at the types the program reads them at. A key
  that \<^verbatim>\<open>dict.get\<close> may find missing is an \<open>option\<close>; the strings are
  byte strings, whose lexicographic order agrees with Python's code point order
  on UTF-8 text.
\<close>

subsection \<open>The fetched document\<close>

record raw_rank =
  rank_context :: "string option"
  startDate :: "string option"

record raw_group =
  displayType :: "string option"

record raw_background =
  customTexture :: "string option"

record raw_metadata =
  background :: "raw_background option"
  offerGroups :: "raw_group list option"
  stackRanks :: "raw_rank list option"

record raw_section =
  sectionID :: "string option"
  displayName :: "string option"
  category :: "string option"
  metadata :: "raw_metadata option"

record shop_data =
  sections :: "raw_section list option"

record body =
  shopData :: "shop_data option"

subsection \<open>The comparison records and the snapshot\<close>

text \<open>
  The values that the comparison records hold: \<^verbatim>\<open>None\<close>, a string, an integer
  or a list of strings. On these Python's \<^verbatim>\<open>==\<close> is structural equality. A
  record is a dictionary from field names to such values, and the snapshot is a
  dictionary from section identifiers to records.
\<close>

datatype pyval = PNone | PStr string | PInt int | PList "string list"

type_synonym section_rec = "string \<rightharpoonup> pyval"

type_synonym snapshot = "string \<rightharpoonup> section_rec"

text \<open>\<^verbatim>\<open>d.get(k, default)\<close> on the result of a lookup.\<close>

definition get_default :: "'a \<Rightarrow> 'a option \<Rightarrow> 'a" where
  "get_default d x = (case x of None \<Rightarrow> d | Some v \<Rightarrow> v)"

text \<open>
  Python's truth value of a string or \<^verbatim>\<open>None\<close>: the value itself when it is a
  non-empty string, nothing otherwise.
\<close>

definition truthy :: "string option \<Rightarrow> string option" where
  "truthy x = (case x of None \<Rightarrow> None | Some s \<Rightarrow> if s = [] then None else Some s)"

definition empty_metadata :: raw_metadata where
  "empty_metadata = \<lparr>background = None, offerGroups = None, stackRanks = None\<rparr>"

subsection \<open>Normalization (\<^verbatim>\<open>process_shop_data\<close>, lines 142 to 156)\<close>

definition section_id_of :: "raw_section \<Rightarrow> string" where
  "section_id_of section = get_default ''N/A'' (sectionID section)"

definition display_name_of :: "raw_section \<Rightarrow> string" where
  "display_name_of section = get_default ''N/A'' (displayName section)"

definition background_url_of :: "raw_section \<Rightarrow> string option" where
  "background_url_of section =
     (case background (get_default empty_metadata (metadata section)) of
        None \<Rightarrow> None
      | Some b \<Rightarrow> customTexture b)"

definition offer_groups_of :: "raw_section \<Rightarrow> raw_group list" where
  "offer_groups_of section =
     get_default [] (offerGroups (get_default empty_metadata (metadata section)))"

definition stack_ranks_of :: "raw_section \<Rightarrow> raw_rank list" where
  "stack_ranks_of section =
     get_default [] (stackRanks (get_default empty_metadata (metadata section)))"

definition group_count_of :: "raw_section \<Rightarrow> nat" where
  "group_count_of section = length (offer_groups_of section)"

definition billboard_of :: "raw_section \<Rightarrow> nat" where
  "billboard_of section =
     length (filter (\<lambda>group. displayType group = Some ''billboard'') (offer_groups_of section))"

text \<open>\<^verbatim>\<open>sorted(set(...))\<close>: the distinct values in ascending order.\<close>

definition contexts_of :: "raw_section \<Rightarrow> string list" where
  "contexts_of section =
     sort (remdups (map (\<lambda>rank. get_default ''Unknown'' (rank_context rank))
                        (stack_ranks_of section)))"

definition release_dates_of :: "raw_section \<Rightarrow> string list" where
  "release_dates_of section =
     sort (List.map_filter (\<lambda>rank. truthy (startDate rank)) (stack_ranks_of section))"

definition new_section :: "raw_section \<Rightarrow> section_rec" where
  "new_section section =
     [''display_name'' \<mapsto> PStr (display_name_of section),
      ''category'' \<mapsto> (case truthy (category section) of None \<Rightarrow> PNone | Some c \<Rightarrow> PStr c),
      ''background_url'' \<mapsto>
         PStr (get_default ''No Background'' (truthy (background_url_of section))),
      ''group_count'' \<mapsto> PInt (int (group_count_of section)),
      ''billboard'' \<mapsto> PInt (int (billboard_of section)),
      ''contexts'' \<mapsto> PList (contexts_of section),
      ''release_dates'' \<mapsto> PList (release_dates_of section)]"

subsection \<open>The per-section change test (lines 161 to 165)\<close>

text \<open>\<^verbatim>\<open>{k: v for k, v in d.items() if k != "release_dates"}\<close>\<close>

definition without_dates :: "section_rec \<Rightarrow> section_rec" where
  "without_dates d = (\<lambda>k. if k \<noteq> ''release_dates'' then d k else None)"

text \<open>\<^verbatim>\<open>old_data.get(section_id, {})\<close>\<close>

definition old_section_of :: "snapshot \<Rightarrow> string \<Rightarrow> section_rec" where
  "old_section_of old_data section_id = get_default Map.empty (old_data section_id)"

definition is_changed :: "section_rec \<Rightarrow> section_rec \<Rightarrow> bool" where
  "is_changed old_section new_sec \<longleftrightarrow> without_dates old_section \<noteq> without_dates new_sec"

section \<open>Effects, errors and the environment\<close>

text \<open>
  Every exception the program can meet on these inputs is a value. Library calls
  whose result the program cannot determine are taken from an environment: the
  datetime library, the answer of the catalog endpoint, the answers of the
  webhook (one per POST of the cycle, in order) and the outcome of writing the
  snapshot file.
\<close>

datatype error =
    RequestException string
  | JSONDecodeError
  | ValueError string
  | KeyError string
  | TypeError
  | OSError string

datatype field = Field (fname: string) (fvalue: string) (finline: bool)

datatype embed = Embed (fields_of: "field list")

datatype level = Info | Warning | Error

datatype msg =
    MsgStarting
  | MsgLoggedIn
  | MsgSleeping nat
  | MsgFetching
  | MsgFetchFailed int string
  | MsgProcessing nat
  | MsgNewOrUpdated string string
  | MsgNewData
  | MsgNoChanges
  | MsgFetchError string
  | MsgDecodeError
  | MsgUnexpected error
  | MsgNoPrevious
  | MsgSaved
  | MsgSaveFailed string
  | MsgSent
  | MsgSendFailed int string
  | MsgSendError string

text \<open>
  The observable steps of a run, in the order they happen: log lines, the GET, the
  POSTs with their payload, opening the snapshot file for reading or for writing
  (with the mapping handed to \<^verbatim>\<open>json.dump\<close>) and sleeping.
\<close>

datatype event =
    Log level msg
  | HttpGet
  | HttpPost embed
  | OpenRead
  | OpenWrite snapshot
  | Sleep nat

text \<open>
  The snapshot file: missing, not valid JSON, not readable for another reason, or
  holding a mapping.
\<close>

datatype snapshot_file = FileNotFound | Corrupt | Unreadable string | Content snapshot

datatype response = Response (status_code: int) (resp_text: string) (resp_json: "error + body")

datatype get_outcome = GetRaises string | GetReturns response

datatype post_outcome = PostRaises string | PostReturns int string

text \<open>
  Writing can fail when the file is opened (the file stays as it was) or while
  \<^verbatim>\<open>json.dump\<close> writes (the file was truncated by \<^verbatim>\<open>open(..., "w")\<close> and
  holds a proper prefix of a JSON object, which does not parse).
\<close>

datatype write_outcome = WriteOk | OpenFails string | DumpFails string

record env =
  get_result :: get_outcome
  post_result :: "nat \<Rightarrow> post_outcome"
  write_result :: write_outcome

text \<open>
  \<^verbatim>\<open>datetime.fromisoformat\<close> raises \<^verbatim>\<open>ValueError\<close> on a string it cannot parse;
  \<open>timestamp\<close> stands for \<^verbatim>\<open>int(dt.timestamp())\<close>.
\<close>

record 'dt datetime_lib =
  fromisoformat :: "string \<Rightarrow> 'dt option"
  timestamp :: "'dt \<Rightarrow> int"

definition CHECK_INTERVAL :: nat where
  "CHECK_INTERVAL = 60"

section \<open>Snapshot store\<close>

definition read_old_data :: "snapshot_file \<Rightarrow> event list \<times> (error + snapshot)" where
  "read_old_data f =
     (case f of
        Content data \<Rightarrow> ([OpenRead], Inr data)
      | FileNotFound \<Rightarrow> ([OpenRead, Log Warning MsgNoPrevious], Inr Map.empty)
      | Corrupt \<Rightarrow> ([OpenRead, Log Warning MsgNoPrevious], Inr Map.empty)
      | Unreadable e \<Rightarrow> ([OpenRead], Inl (OSError e)))"

definition save_data :: "write_outcome \<Rightarrow> snapshot \<Rightarrow> snapshot_file \<Rightarrow> snapshot_file \<times> event list" where
  "save_data w data f =
     (case w of
        WriteOk \<Rightarrow> (Content data, [OpenWrite data, Log Info MsgSaved])
      | OpenFails e \<Rightarrow> (f, [OpenWrite data, Log Error (MsgSaveFailed e)])
      | DumpFails e \<Rightarrow> (Corrupt, [OpenWrite data, Log Error (MsgSaveFailed e)]))"

section \<open>Formatting\<close>

definition digit_char :: "nat \<Rightarrow> char" where
  "digit_char d = ''0123456789'' ! d"

function str_nat :: "nat \<Rightarrow> string" where
  "str_nat n = (if n < 10 then [digit_char n] else str_nat (n div 10) @ [digit_char (n mod 10)])"
  by pat_completeness auto
termination
  by (relation "measure id") auto

declare str_nat.simps [simp del]

text \<open>\<^verbatim>\<open>str\<close> of an integer.\<close>

definition str_int :: "int \<Rightarrow> string" where
  "str_int i = (if i < 0 then CHR ''-'' # str_nat (nat (- i)) else str_nat (nat i))"

definition to_discord_timestamp :: "'dt datetime_lib \<Rightarrow> 'dt \<Rightarrow> string" where
  "to_discord_timestamp lib dt = ''<t:'' @ str_int (timestamp lib dt) @ '':R>''"

text \<open>\<^verbatim>\<open>sep.join(xs)\<close>\<close>

fun join :: "string \<Rightarrow> string list \<Rightarrow> string" where
  "join sep [] = []"
| "join sep [x] = x"
| "join sep (x # y # ys) = x @ sep @ join sep (y # ys)"

text \<open>
  The list comprehension of line 71: the dates are taken in order, empty ones are
  skipped, and the first one that does not parse raises.
\<close>

fun format_dates :: "'dt datetime_lib \<Rightarrow> string list \<Rightarrow> error + string list" where
  "format_dates lib [] = Inr []"
| "format_dates lib (date # dates) =
     (if date = [] then format_dates lib dates
      else case fromisoformat lib date of
             None \<Rightarrow> Inl (ValueError date)
           | Some dt \<Rightarrow>
               (case format_dates lib dates of
                  Inl e \<Rightarrow> Inl e
                | Inr ts \<Rightarrow> Inr (to_discord_timestamp lib dt # ts)))"

text \<open>
  \<^verbatim>\<open>new_section[k]\<close> read as a list of strings or as an integer. A missing key
  raises \<^verbatim>\<open>KeyError\<close>; a value of another type is reported as \<^verbatim>\<open>TypeError\<close>.
  Neither happens on a record built by \<open>new_section\<close>.
\<close>

definition get_list :: "section_rec \<Rightarrow> string \<Rightarrow> error + string list" where
  "get_list d k =
     (case d k of None \<Rightarrow> Inl (KeyError k) | Some (PList xs) \<Rightarrow> Inr xs | Some _ \<Rightarrow> Inl TypeError)"

definition get_int :: "section_rec \<Rightarrow> string \<Rightarrow> error + int" where
  "get_int d k =
     (case d k of None \<Rightarrow> Inl (KeyError k) | Some (PInt i) \<Rightarrow> Inr i | Some _ \<Rightarrow> Inl TypeError)"

definition newline :: string where
  "newline = [CHR 0x0A]"

definition create_embed_for_section ::
    "'dt datetime_lib \<Rightarrow> raw_section \<Rightarrow> section_rec \<Rightarrow> error + embed" where
  "create_embed_for_section lib section new_sec =
     (let background_url = background_url_of section;
          display_name = display_name_of section;
          section_id = section_id_of section;
          cat = truthy (category section);
          background_field =
            (case truthy background_url of
               Some u \<Rightarrow> ''[Background]('' @ u @ '')''
             | None \<Rightarrow> ''No Background'')
      in case get_list new_sec ''contexts'' of
           Inl e \<Rightarrow> Inl e
         | Inr cs \<Rightarrow>
      (let contexts = (if cs \<noteq> [] then join newline cs else ''No Context'')
       in case get_list new_sec ''release_dates'' of
            Inl e \<Rightarrow> Inl e
          | Inr ds \<Rightarrow>
      (case (if ds \<noteq> [] then map_sum id (join newline) (format_dates lib ds)
             else Inr ''No Release Dates'') of
         Inl e \<Rightarrow> Inl e
       | Inr release_dates \<Rightarrow>
      (let fields0 =
             [Field ''**Display Name**'' display_name True,
              Field ''**Section ID**'' section_id True];
           fields1 =
             fields0 @
             [case cat of
                Some c \<Rightarrow> Field ''**Category**'' c True
              | None \<Rightarrow> Field ''**Background**'' background_field True];
           second_row0 =
             (case cat of
                Some c \<Rightarrow> [Field ''**Background**'' background_field True]
              | None \<Rightarrow> [])
       in case get_int new_sec ''group_count'' of
            Inl e \<Rightarrow> Inl e
          | Inr gc \<Rightarrow>
      (let second_row1 = second_row0 @ [Field ''**Group Count**'' (str_int gc) True]
       in case get_int new_sec ''billboard'' of
            Inl e \<Rightarrow> Inl e
          | Inr bb \<Rightarrow>
      (let second_row_fields =
             (if bb > 0 then second_row1 @ [Field ''**Billboard**'' (str_int bb) True]
              else second_row1);
           fields2 = fields1 @ second_row_fields
       in Inr (Embed
                 (fields2 @
                  [Field ''**Context(s)**'' contexts False,
                   Field ''**Possible Release Dates**'' release_dates False]))))))))"

section \<open>Dispatch\<close>

text \<open>
  One dispatch attempt: the POST, the log line for its outcome, the cooldown. Only
  \<^verbatim>\<open>requests.RequestException\<close> is caught, and the webhook's answers are of that
  kind or a response.
\<close>

definition send_to_discord :: "post_outcome \<Rightarrow> embed \<Rightarrow> event list" where
  "send_to_discord outcome embed_dict =
     (case outcome of
        PostReturns status txt \<Rightarrow>
          [HttpPost embed_dict,
           if status = 204 then Log Info MsgSent else Log Error (MsgSendFailed status txt),
           Sleep 1]
      | PostRaises e \<Rightarrow> [HttpPost embed_dict, Log Error (MsgSendError e), Sleep 1])"

text \<open>
  \<^verbatim>\<open>await asyncio.gather(*tasks)\<close>: the event loop starts the coroutines in the
  order of the list and returns when all of them are done. The POST is a blocking
  call, so the attempts do not interleave; the cooldowns, which overlap in real
  time, are recorded after each attempt.
\<close>

fun gather :: "(nat \<Rightarrow> post_outcome) \<Rightarrow> nat \<Rightarrow> embed list \<Rightarrow> event list" where
  "gather post i [] = []"
| "gather post i (t # ts) = send_to_discord (post i) t @ gather post (Suc i) ts"

section \<open>One poll cycle\<close>

text \<open>
  The \<^verbatim>\<open>for\<close> loop of lines 141 to 168, over the state \<open>(new_data, tasks, trace)\<close>.
  An exception of \<open>create_embed_for_section\<close> leaves the loop with the log lines
  written so far.
\<close>

fun process_sections ::
    "'dt datetime_lib \<Rightarrow> snapshot \<Rightarrow> raw_section list \<Rightarrow> snapshot \<times> embed list \<times> event list
       \<Rightarrow> (error \<times> event list) + (snapshot \<times> embed list \<times> event list)" where
  "process_sections lib old_data [] st = Inr st"
| "process_sections lib old_data (section # rest) (new_data, tasks, tr) =
     (let section_id = section_id_of section;
          display_name = display_name_of section;
          new_sec = new_section section;
          new_data' = new_data(section_id \<mapsto> new_sec)
      in if is_changed (old_section_of old_data section_id) new_sec then
           (let tr' = tr @ [Log Info (MsgNewOrUpdated display_name section_id)]
            in case create_embed_for_section lib section new_sec of
                 Inl e \<Rightarrow> Inl (e, tr')
               | Inr embed_dict \<Rightarrow>
                   process_sections lib old_data rest (new_data', tasks @ [embed_dict], tr'))
         else process_sections lib old_data rest (new_data', tasks, tr))"

text \<open>The three \<^verbatim>\<open>except\<close> clauses of lines 179 to 184, in their order.\<close>

definition handle_exception :: "error \<Rightarrow> event" where
  "handle_exception e =
     (case e of
        RequestException m \<Rightarrow> Log Error (MsgFetchError m)
      | JSONDecodeError \<Rightarrow> Log Error MsgDecodeError
      | _ \<Rightarrow> Log Error (MsgUnexpected e))"

text \<open>\<^verbatim>\<open>data.get("shopData", {}).get("sections", [])\<close>\<close>

definition fetched_sections :: "body \<Rightarrow> raw_section list" where
  "fetched_sections data =
     (case shopData data of None \<Rightarrow> [] | Some sd \<Rightarrow> get_default [] (sections sd))"

definition process_shop_data :: "'dt datetime_lib \<Rightarrow> env \<Rightarrow> snapshot_file \<Rightarrow> snapshot_file \<times> event list" where
  "process_shop_data lib ev f =
     (let tr0 = [Log Info MsgFetching, HttpGet]
      in case get_result ev of
           GetRaises m \<Rightarrow> (f, tr0 @ [handle_exception (RequestException m)])
         | GetReturns response \<Rightarrow>
             if status_code response \<noteq> 200 then
               (f, tr0 @ [Log Error (MsgFetchFailed (status_code response) (resp_text response))])
             else
               (case resp_json response of
                  Inl e \<Rightarrow> (f, tr0 @ [handle_exception e])
                | Inr data \<Rightarrow>
                    (let secs = fetched_sections data
                     in case read_old_data f of
                          (rd, Inl e) \<Rightarrow> (f, tr0 @ rd @ [handle_exception e])
                        | (rd, Inr old_data) \<Rightarrow>
                            (let tr1 = tr0 @ rd @ [Log Info (MsgProcessing (length secs))]
                             in case process_sections lib old_data secs (Map.empty, [], []) of
                                  Inl (e, lt) \<Rightarrow> (f, tr1 @ lt @ [handle_exception e])
                                | Inr (new_data, tasks, lt) \<Rightarrow>
                                    (let tr2 = tr1 @ lt @ gather (post_result ev) 0 tasks
                                     in if old_data \<noteq> new_data then
                                          (let (f', st) = save_data (write_result ev) new_data f
                                           in (f', tr2 @ [Log Info MsgNewData] @ st))
                                        else (f, tr2 @ [Log Info MsgNoChanges]))))))"

section \<open>The main loop\<close>

text \<open>
  The loop never ends; its run against the environments of the first cycles is
  the trace of that many iterations.
\<close>

fun cycles :: "'dt datetime_lib \<Rightarrow> env list \<Rightarrow> snapshot_file \<Rightarrow> snapshot_file \<times> event list" where
  "cycles lib [] f = (f, [])"
| "cycles lib (ev # evs) f =
     (let (f1, t1) = process_shop_data lib ev f;
          (f2, t2) = cycles lib evs f1
      in (f2, t1 @ [Log Info (MsgSleeping CHECK_INTERVAL), Sleep CHECK_INTERVAL] @ t2))"

definition main_loop :: "'dt datetime_lib \<Rightarrow> env list \<Rightarrow> snapshot_file \<Rightarrow> snapshot_file \<times> event list" where
  "main_loop lib evs f = (let (f', t) = cycles lib evs f in (f', Log Info MsgLoggedIn # t))"

section \<open>Notions used in the statements\<close>

subsection \<open>Normalization as the specification words it\<close>

text \<open>
  The context of a rank, with the literal default; the contexts of a section as
  the sorted enumeration of the set of its ranks' contexts; the start dates that
  are present and non-empty, and their sorted list.
\<close>

definition spec_context :: "raw_rank \<Rightarrow> string" where
  "spec_context rank = (case rank_context rank of None \<Rightarrow> ''Unknown'' | Some c \<Rightarrow> c)"

definition spec_contexts :: "raw_section \<Rightarrow> string list" where
  "spec_contexts section = sorted_list_of_set (spec_context ` set (stack_ranks_of section))"

definition spec_start_dates :: "raw_section \<Rightarrow> string list" where
  "spec_start_dates section =
     map (\<lambda>rank. the (startDate rank))
       (filter (\<lambda>rank. startDate rank \<noteq> None \<and> startDate rank \<noteq> Some [])
          (stack_ranks_of section))"

definition spec_release_dates :: "raw_section \<Rightarrow> string list" where
  "spec_release_dates section = sort (spec_start_dates section)"

subsection \<open>The message layout as the specification words it\<close>

text \<open>
  The names of the fields, in order, for a section with or without a category and
  with or without billboards.
\<close>

definition spec_field_names :: "bool \<Rightarrow> bool \<Rightarrow> string list" where
  "spec_field_names has_category has_billboard =
     [''**Display Name**'', ''**Section ID**'',
      if has_category then ''**Category**'' else ''**Background**''] @
     (if has_category then [''**Background**''] else []) @
     [''**Group Count**''] @
     (if has_billboard then [''**Billboard**''] else []) @
     [''**Context(s)**'', ''**Possible Release Dates**'']"

text \<open>The value of the field of a given name, if the embed has one.\<close>

definition field_value :: "embed \<Rightarrow> string \<Rightarrow> string option" where
  "field_value e n = map_of (map (\<lambda>fl. (fname fl, fvalue fl)) (fields_of e)) n"

subsection \<open>The cycle\<close>

text \<open>The sections that the change test marks, in the order of the fetched list.\<close>

definition changed_sections :: "snapshot \<Rightarrow> raw_section list \<Rightarrow> raw_section list" where
  "changed_sections old_data secs =
     filter (\<lambda>s. is_changed (old_section_of old_data (section_id_of s)) (new_section s)) secs"

text \<open>The mapping that the loop builds from the mapping it starts with.\<close>

fun new_data_of :: "raw_section list \<Rightarrow> snapshot \<Rightarrow> snapshot" where
  "new_data_of [] nd = nd"
| "new_data_of (s # secs) nd = new_data_of secs (nd(section_id_of s \<mapsto> new_section s))"

text \<open>
  The steps of a dispatch attempt (the POST, the line for its outcome, the
  cooldown), the POSTs alone, and the write of the snapshot file.
\<close>

fun dispatch_event :: "event \<Rightarrow> bool" where
  "dispatch_event (HttpPost e) = True"
| "dispatch_event (Log l MsgSent) = True"
| "dispatch_event (Log l (MsgSendFailed status txt)) = True"
| "dispatch_event (Log l (MsgSendError m)) = True"
| "dispatch_event (Sleep n) = True"
| "dispatch_event _ = False"

fun is_post :: "event \<Rightarrow> bool" where
  "is_post (HttpPost e) = True"
| "is_post _ = False"

fun is_write :: "event \<Rightarrow> bool" where
  "is_write (OpenWrite m) = True"
| "is_write _ = False"

text \<open>The closed form of the fields of the embed of a section and its record.\<close>

definition background_field_of :: "raw_section \<Rightarrow> string" where
  "background_field_of s =
     (case truthy (background_url_of s) of
        Some u \<Rightarrow> ''[Background]('' @ u @ '')''
      | None \<Rightarrow> ''No Background'')"

definition embed_fields :: "raw_section \<Rightarrow> string \<Rightarrow> field list" where
  "embed_fields s dates =
     [Field ''**Display Name**'' (display_name_of s) True,
      Field ''**Section ID**'' (section_id_of s) True] @
     (case truthy (category s) of
        Some c \<Rightarrow> [Field ''**Category**'' c True,
                   Field ''**Background**'' (background_field_of s) True]
      | None \<Rightarrow> [Field ''**Background**'' (background_field_of s) True]) @
     [Field ''**Group Count**'' (str_int (int (group_count_of s))) True] @
     (if billboard_of s > 0 then [Field ''**Billboard**'' (str_int (int (billboard_of s))) True]
      else []) @
     [Field ''**Context(s)**''
        (if contexts_of s = [] then ''No Context'' else join newline (contexts_of s)) False,
      Field ''**Possible Release Dates**'' dates False]"

subsection \<open>Example inputs\<close>

text \<open>A datetime library that knows two instants, as seconds since the epoch.\<close>

definition ex_lib :: "int datetime_lib" where
  "ex_lib = \<lparr>fromisoformat =
               (\<lambda>s. if s = ''2024-01-01T00:00:00+00:00'' then Some 1704067200
                    else if s = ''2024-02-01T00:00:00+00:00'' then Some 1706745600
                    else None),
             timestamp = (\<lambda>t. t)\<rparr>"

definition ex_ranks :: "string \<Rightarrow> raw_rank list" where
  "ex_ranks d =
     [\<lparr>rank_context = Some ''B'', startDate = Some d\<rparr>,
      \<lparr>rank_context = Some ''A'', startDate = None\<rparr>,
      \<lparr>rank_context = Some ''B'', startDate = Some ''''\<rparr>]"

text \<open>
  A section with a category, a background, three offer groups of which two are
  billboards, contexts A and B, and the start date \<open>d\<close>.
\<close>

definition ex_section :: "string \<Rightarrow> raw_section" where
  "ex_section d =
     \<lparr>sectionID = Some ''s1'', displayName = Some ''Featured'', category = Some ''Featured'',
      metadata = Some \<lparr>background = Some \<lparr>customTexture = Some ''http://bg''\<rparr>,
                       offerGroups = Some [\<lparr>displayType = Some ''billboard''\<rparr>,
                                           \<lparr>displayType = None\<rparr>,
                                           \<lparr>displayType = Some ''billboard''\<rparr>],
                       stackRanks = Some (ex_ranks d)\<rparr>\<rparr>"

text \<open>A section that has nothing but an identifier.\<close>

definition ex_bare :: raw_section where
  "ex_bare = \<lparr>sectionID = Some ''s2'', displayName = None, category = None, metadata = None\<rparr>"

definition ex_response :: "int \<Rightarrow> raw_section list \<Rightarrow> response" where
  "ex_response status secs =
     Response status ''body'' (Inr \<lparr>shopData = Some \<lparr>sections = Some secs\<rparr>\<rparr>)"

text \<open>An environment in which the webhook accepts every POST and the write succeeds.\<close>

definition ex_env :: "int \<Rightarrow> raw_section list \<Rightarrow> env" where
  "ex_env status secs =
     \<lparr>get_result = GetReturns (ex_response status secs),
      post_result = (\<lambda>i. PostReturns 204 []),
      write_result = WriteOk\<rparr>"

text \<open>The section of the example under another display name.\<close>

definition ex_renamed :: "string \<Rightarrow> raw_section" where
  "ex_renamed d = (ex_section d)\<lparr>displayName := Some ''Daily''\<rparr>"

text \<open>The embed of the example section, up to the display name and the dates.\<close>

definition ex_embed :: "string \<Rightarrow> string \<Rightarrow> embed" where
  "ex_embed display_name dates =
     Embed [Field ''**Display Name**'' display_name True,
            Field ''**Section ID**'' ''s1'' True,
            Field ''**Category**'' ''Featured'' True,
            Field ''**Background**'' ''[Background](http://bg)'' True,
            Field ''**Group Count**'' ''3'' True,
            Field ''**Billboard**'' ''2'' True,
            Field ''**Context(s)**'' (''A'' @ newline @ ''B'') False,
            Field ''**Possible Release Dates**'' dates False]"

text \<open>An answer with status 200 whose body has no \<open>shopData\<close> key.\<close>

definition ex_env_no_shop :: env where
  "ex_env_no_shop =
     \<lparr>get_result = GetReturns (Response 200 ''{}'' (Inr \<lparr>shopData = None\<rparr>)),
      post_result = (\<lambda>i. PostReturns 204 []),
      write_result = WriteOk\<rparr>"

text \<open>A snapshot that holds the record of the example section.\<close>

definition ex_old :: snapshot where
  "ex_old = [''s1'' \<mapsto> new_section (ex_section ''2024-01-01T00:00:00+00:00'')]"

section \<open>Normalization\<close>

lemma map_filter_truthy:
  "List.map_filter (\<lambda>rank. truthy (startDate rank)) rs =
   map (\<lambda>rank. the (startDate rank))
     (filter (\<lambda>rank. startDate rank \<noteq> None \<and> startDate rank \<noteq> Some []) rs)"
  by (induction rs) (auto simp: truthy_def split: option.splits)

lemma contexts_of_spec: "contexts_of section = spec_contexts section"
proof -
  have "(\<lambda>rank. get_default ''Unknown'' (rank_context rank)) = spec_context"
    by (simp add: fun_eq_iff get_default_def spec_context_def)
  moreover have "sorted_list_of_set (set (map spec_context (stack_ranks_of section))) =
      sort (remdups (map spec_context (stack_ranks_of section)))"
    by (rule sorted_list_of_set_sort_remdups)
  ultimately show ?thesis
    by (simp add: contexts_of_def spec_contexts_def)
qed

lemma release_dates_of_spec: "release_dates_of section = spec_release_dates section"
  by (simp add: release_dates_of_def spec_release_dates_def spec_start_dates_def
      map_filter_truthy)

lemma new_section_lookups:
  "get_list (new_section s) ''contexts'' = Inr (contexts_of s)"
  "get_list (new_section s) ''release_dates'' = Inr (release_dates_of s)"
  "get_int (new_section s) ''group_count'' = Inr (int (group_count_of s))"
  "get_int (new_section s) ''billboard'' = Inr (int (billboard_of s))"
  by (simp_all add: new_section_def get_list_def get_int_def)

lemma ex_section_parts:
  "display_name_of (ex_section d) = ''Featured''"
  "section_id_of (ex_section d) = ''s1''"
  "truthy (category (ex_section d)) = Some ''Featured''"
  "truthy (background_url_of (ex_section d)) = Some ''http://bg''"
  "group_count_of (ex_section d) = 3"
  "billboard_of (ex_section d) = 2"
  "contexts_of (ex_section d) = [''A'', ''B'']"
  "release_dates_of (ex_section d) = (if d = [] then [] else [d])"
  by (simp_all add: ex_section_def ex_ranks_def display_name_of_def section_id_of_def
      truthy_def get_default_def background_url_of_def offer_groups_of_def stack_ranks_of_def
      group_count_of_def billboard_of_def contexts_of_def release_dates_of_def)

lemma ex_section_rec:
  "new_section (ex_section d) =
     [''display_name'' \<mapsto> PStr ''Featured'', ''category'' \<mapsto> PStr ''Featured'',
      ''background_url'' \<mapsto> PStr ''http://bg'', ''group_count'' \<mapsto> PInt 3,
      ''billboard'' \<mapsto> PInt 2, ''contexts'' \<mapsto> PList [''A'', ''B''],
      ''release_dates'' \<mapsto> PList (if d = [] then [] else [d])]"
  by (simp add: new_section_def ex_section_parts get_default_def)

text \<open>
  C4. The record of every section holds, under \<open>contexts\<close>, the sorted
  enumeration of the set of its ranks' contexts (a missing context counting as
  \<open>Unknown\<close>) and, under \<open>release_dates\<close>, the sorted list of the start dates that
  are present and non-empty, with their repetitions. Both lists are sorted and the
  contexts are duplicate-free; both are empty when the section has no ranks, be
  it an empty list or none.
\<close>

theorem normalize_contexts_release_dates:
  "new_section section ''contexts'' = Some (PList (spec_contexts section)) \<and>
   new_section section ''release_dates'' = Some (PList (spec_release_dates section)) \<and>
   sorted (spec_contexts section) \<and> distinct (spec_contexts section) \<and>
   set (spec_contexts section) = spec_context ` set (stack_ranks_of section) \<and>
   sorted (spec_release_dates section) \<and>
   mset (spec_release_dates section) = mset (spec_start_dates section) \<and>
   (stack_ranks_of section = [] \<longrightarrow>
      spec_contexts section = [] \<and> spec_release_dates section = [])"
proof -
  have "new_section section ''contexts'' = Some (PList (contexts_of section))"
    and "new_section section ''release_dates'' = Some (PList (release_dates_of section))"
    by (simp_all add: new_section_def)
  then show ?thesis
    by (simp add: contexts_of_spec release_dates_of_spec)
      (simp add: spec_contexts_def spec_release_dates_def spec_start_dates_def)
qed

theorem normalize_contexts_release_dates_witness:
  "new_section (ex_section ''2024-01-01T00:00:00+00:00'') ''contexts''
     = Some (PList [''A'', ''B'']) \<and>
   spec_contexts (ex_section ''2024-01-01T00:00:00+00:00'') = [''A'', ''B''] \<and>
   spec_release_dates (ex_section ''2024-01-01T00:00:00+00:00'')
     = [''2024-01-01T00:00:00+00:00''] \<and>
   stack_ranks_of ex_bare = [] \<and>
   spec_contexts ex_bare = [] \<and> spec_release_dates ex_bare = []"
proof -
  have "stack_ranks_of ex_bare = []"
    by (simp add: stack_ranks_of_def ex_bare_def get_default_def empty_metadata_def)
  then show ?thesis
    using normalize_contexts_release_dates [of "ex_section ''2024-01-01T00:00:00+00:00''"]
      normalize_contexts_release_dates [of ex_bare]
    by (simp add: ex_section_rec)
qed

section \<open>The change test\<close>

lemma without_dates_eq_iff:
  "without_dates a = without_dates b \<longleftrightarrow> (\<forall>k. k \<noteq> ''release_dates'' \<longrightarrow> a k = b k)"
  by (auto simp: without_dates_def fun_eq_iff)

text \<open>
  C1. The change test holds exactly when the two records differ at some field
  other than \<open>release_dates\<close>. So two records that agree on every other field
  compare as unchanged, and the loop then passes over the section without
  formatting an embed, without queuing a dispatch and without a log line: it only
  enters the record into the new mapping.
\<close>

theorem is_changed_ignores_release_dates:
  "(is_changed old_section new_sec \<longleftrightarrow>
      (\<exists>k. k \<noteq> ''release_dates'' \<and> old_section k \<noteq> new_sec k)) \<and>
   ((\<forall>k. k \<noteq> ''release_dates'' \<longrightarrow> old_section k = new_sec k) \<longrightarrow>
      \<not> is_changed old_section new_sec) \<and>
   (\<not> is_changed (old_section_of old_data (section_id_of section)) (new_section section) \<longrightarrow>
      process_sections lib old_data (section # rest) (new_data, tasks, tr) =
      process_sections lib old_data rest
        (new_data(section_id_of section \<mapsto> new_section section), tasks, tr))"
  by (auto simp: is_changed_def without_dates_eq_iff Let_def)

theorem is_changed_ignores_release_dates_witness:
  "new_section (ex_section ''2024-01-01T00:00:00+00:00'') \<noteq>
   new_section (ex_section ''2024-02-01T00:00:00+00:00'') \<and>
   \<not> is_changed (new_section (ex_section ''2024-01-01T00:00:00+00:00''))
        (new_section (ex_section ''2024-02-01T00:00:00+00:00''))"
proof -
  let ?a = "new_section (ex_section ''2024-01-01T00:00:00+00:00'')"
  let ?b = "new_section (ex_section ''2024-02-01T00:00:00+00:00'')"
  have "?a ''release_dates'' \<noteq> ?b ''release_dates''"
    by (simp add: ex_section_rec)
  then have ne: "?a \<noteq> ?b" by metis
  have "\<forall>k. k \<noteq> ''release_dates'' \<longrightarrow> ?a k = ?b k"
    by (simp add: ex_section_rec)
  with is_changed_ignores_release_dates [of ?a ?b] ne show ?thesis by blast
qed

section \<open>Snapshot store and fetch errors\<close>



text \<open>
  C7. When the catalog answers with a status other than 200, the cycle consists of
  the GET and the error line with the status and the body: the snapshot file is
  not opened, nothing is posted, the file is as before, and the loop goes on to its
  sleep and to the next cycle from the same file.
\<close>

theorem fetch_non_200_aborts:
  "get_result ev = GetReturns response \<Longrightarrow> status_code response \<noteq> 200 \<Longrightarrow>
   process_shop_data lib ev f =
     (f, [Log Info MsgFetching, HttpGet,
          Log Error (MsgFetchFailed (status_code response) (resp_text response))]) \<and>
   cycles lib (ev # evs) f =
     (fst (cycles lib evs f),
      [Log Info MsgFetching, HttpGet,
       Log Error (MsgFetchFailed (status_code response) (resp_text response)),
       Log Info (MsgSleeping CHECK_INTERVAL), Sleep CHECK_INTERVAL] @ snd (cycles lib evs f))"
  by (simp add: process_shop_data_def split_beta)

theorem fetch_non_200_aborts_witness:
  "process_shop_data ex_lib (ex_env 500 [ex_section '''']) (Content Map.empty) =
     (Content Map.empty,
      [Log Info MsgFetching, HttpGet, Log Error (MsgFetchFailed 500 ''body'')])"
  using fetch_non_200_aborts [of "ex_env 500 [ex_section '''']" "ex_response 500 [ex_section '''']"
      ex_lib "Content Map.empty" "[]"]
  by (simp add: ex_env_def ex_response_def)

section \<open>Formatting\<close>



lemma format_dates_good:
  "\<forall>d \<in> set ds. d \<noteq> [] \<longrightarrow> fromisoformat lib d \<noteq> None \<Longrightarrow>
     \<exists>ts. format_dates lib ds = Inr ts"
  by (induction ds) (auto split: if_splits option.splits sum.splits)



lemma create_embed_new_section:
  "create_embed_for_section lib s (new_section s) =
     (case format_dates lib (release_dates_of s) of
        Inl e \<Rightarrow> Inl e
      | Inr ts \<Rightarrow>
          Inr (Embed (embed_fields s
                 (if release_dates_of s = [] then ''No Release Dates'' else join newline ts))))"
  by (auto simp: create_embed_for_section_def new_section_lookups Let_def embed_fields_def
      background_field_of_def split: sum.splits option.splits)



lemma create_embed_good:
  assumes "\<forall>d \<in> set (release_dates_of s). fromisoformat lib d \<noteq> None"
  shows "\<exists>e. create_embed_for_section lib s (new_section s) = Inr e"
proof -
  from assms have "\<forall>d \<in> set (release_dates_of s). d \<noteq> [] \<longrightarrow> fromisoformat lib d \<noteq> None"
    by simp
  from format_dates_good [OF this] show ?thesis
    by (auto simp: create_embed_new_section)
qed

lemma embed_fields_names:
  "map fname (embed_fields s dates) =
     spec_field_names (truthy (category s) \<noteq> None) (0 < billboard_of s)"
  by (auto simp: embed_fields_def spec_field_names_def split: option.splits)

lemma embed_fields_section_id:
  "field_value (Embed (embed_fields s dates)) ''**Section ID**'' = Some (section_id_of s)"
  by (simp add: field_value_def embed_fields_def)

lemma create_embed_section_id:
  "create_embed_for_section lib s (new_section s) = Inr e \<Longrightarrow>
     field_value e ''**Section ID**'' = Some (section_id_of s)"
  by (auto simp: create_embed_new_section embed_fields_section_id split: sum.splits)

section \<open>The loop over the sections\<close>

lemma process_sections_Inr:
  "process_sections lib old_data secs (nd, tasks, tr) = Inr (nd', tasks', tr') \<Longrightarrow>
     nd' = new_data_of secs nd \<and>
     (\<exists>es. tasks' = tasks @ es \<and>
           map (\<lambda>s. create_embed_for_section lib s (new_section s)) (changed_sections old_data secs)
             = map Inr es) \<and>
     tr' = tr @ map (\<lambda>s. Log Info (MsgNewOrUpdated (display_name_of s) (section_id_of s)))
                 (changed_sections old_data secs)"
proof (induction secs arbitrary: nd tasks tr)
  case Nil
  then show ?case by (simp add: changed_sections_def)
next
  case (Cons s secs)
  show ?case
  proof (cases "is_changed (old_section_of old_data (section_id_of s)) (new_section s)")
    case False
    with Cons.prems have
      "process_sections lib old_data secs (nd(section_id_of s \<mapsto> new_section s), tasks, tr)
       = Inr (nd', tasks', tr')"
      by (simp add: Let_def)
    from Cons.IH [OF this] False show ?thesis
      by (simp add: changed_sections_def del: fun_upd_apply)
  next
    case True
    with Cons.prems obtain e where
      e: "create_embed_for_section lib s (new_section s) = Inr e"
      by (auto simp: Let_def split: sum.splits)
    with True Cons.prems have
      "process_sections lib old_data secs
         (nd(section_id_of s \<mapsto> new_section s), tasks @ [e],
          tr @ [Log Info (MsgNewOrUpdated (display_name_of s) (section_id_of s))])
       = Inr (nd', tasks', tr')"
      by (simp add: Let_def)
    from Cons.IH [OF this] True e show ?thesis
      by (auto simp: changed_sections_def simp del: fun_upd_apply)
  qed
qed

lemma process_sections_Inl:
  "process_sections lib old_data secs (nd, tasks, tr) = Inl (e, tr') \<Longrightarrow>
     (\<exists>s \<in> set (changed_sections old_data secs).
        create_embed_for_section lib s (new_section s) = Inl e) \<and>
     (\<exists>ls. tr' = tr @ ls \<and> (\<forall>x \<in> set ls. \<exists>a b. x = Log Info (MsgNewOrUpdated a b)))"
proof (induction secs arbitrary: nd tasks tr)
  case Nil
  then show ?case by simp
next
  case (Cons s secs)
  show ?case
  proof (cases "is_changed (old_section_of old_data (section_id_of s)) (new_section s)")
    case False
    with Cons.prems have
      "process_sections lib old_data secs (nd(section_id_of s \<mapsto> new_section s), tasks, tr)
       = Inl (e, tr')"
      by (simp add: Let_def)
    from Cons.IH [OF this] False show ?thesis
      by (simp add: changed_sections_def del: fun_upd_apply)
  next
    case True
    show ?thesis
    proof (cases "create_embed_for_section lib s (new_section s)")
      case (Inl e')
      with True Cons.prems show ?thesis
        by (auto simp: Let_def changed_sections_def)
    next
      case (Inr em)
      with True Cons.prems have
        "process_sections lib old_data secs
           (nd(section_id_of s \<mapsto> new_section s), tasks @ [em],
            tr @ [Log Info (MsgNewOrUpdated (display_name_of s) (section_id_of s))])
         = Inl (e, tr')"
        by (simp add: Let_def)
      from Cons.IH [OF this] True show ?thesis
        by (auto simp: changed_sections_def simp del: fun_upd_apply)
    qed
  qed
qed

lemma process_sections_cases:
  "(\<exists>e lt. process_sections lib old_data secs st = Inl (e, lt)) \<or>
   (\<exists>nd tasks lt. process_sections lib old_data secs st = Inr (nd, tasks, lt))"
  by (cases "process_sections lib old_data secs st") auto


lemma process_sections_good:
  assumes "\<forall>s \<in> set (changed_sections old_data secs).
             \<exists>e. create_embed_for_section lib s (new_section s) = Inr e"
  shows "\<exists>nd' tasks' tr'. process_sections lib old_data secs (nd, tasks, tr) = Inr (nd', tasks', tr')"
proof (rule ccontr)
  assume "\<not> ?thesis"
  with process_sections_cases [of lib old_data secs "(nd, tasks, tr)"]
  obtain e lt where "process_sections lib old_data secs (nd, tasks, tr) = Inl (e, lt)"
    by blast
  from process_sections_Inl [OF this] assms show False by force
qed

lemma process_sections_tasks:
  assumes "process_sections lib old_data secs (nd, [], tr) = Inr (nd', tasks', tr')"
  shows "map (\<lambda>s. create_embed_for_section lib s (new_section s)) (changed_sections old_data secs)
           = map Inr tasks'"
  using process_sections_Inr [OF assms] by simp

lemma new_data_of_other:
  "sid \<notin> section_id_of ` set secs \<Longrightarrow> new_data_of secs nd sid = nd sid"
  by (induction secs arbitrary: nd) auto

lemma dom_new_data_of:
  "dom (new_data_of secs nd) = dom nd \<union> section_id_of ` set secs"
  by (induction secs arbitrary: nd) auto

section \<open>Dispatch\<close>


lemma gather_filter_posts:
  "filter is_post (gather post i tasks) = map HttpPost tasks"
  by (induction tasks arbitrary: i) (auto simp: send_to_discord_def split: post_outcome.splits)

lemma gather_dispatch:
  "filter dispatch_event (gather post i tasks) = gather post i tasks"
  by (induction tasks arbitrary: i) (auto simp: send_to_discord_def split: post_outcome.splits)

lemma gather_no_write:
  "filter is_write (gather post i tasks) = []"
  by (induction tasks arbitrary: i) (auto simp: send_to_discord_def split: post_outcome.splits)

section \<open>The cycle in closed form\<close>

lemma read_old_data_events:
  "read_old_data f = (rd, res) \<Longrightarrow>
     filter dispatch_event rd = [] \<and> filter is_write rd = [] \<and> filter is_post rd = []"
  by (auto simp: read_old_data_def split: snapshot_file.splits)

lemma process_shop_data_completed:
  assumes "get_result ev = GetReturns response" "status_code response = 200"
    "resp_json response = Inr data" "read_old_data f = (rd, Inr old_data)"
    "process_sections lib old_data (fetched_sections data) (Map.empty, [], []) = Inr (nd, tasks, lt)"
  shows "process_shop_data lib ev f =
     (if old_data \<noteq> nd then
        (fst (save_data (write_result ev) nd f),
         [Log Info MsgFetching, HttpGet] @ rd @
         [Log Info (MsgProcessing (length (fetched_sections data)))] @ lt @
         gather (post_result ev) 0 tasks @ [Log Info MsgNewData] @
         snd (save_data (write_result ev) nd f))
      else
        (f, [Log Info MsgFetching, HttpGet] @ rd @
            [Log Info (MsgProcessing (length (fetched_sections data)))] @ lt @
            gather (post_result ev) 0 tasks @ [Log Info MsgNoChanges]))"
  using assms by (simp add: process_shop_data_def Let_def split_beta)

lemma process_shop_data_aborted:
  assumes "get_result ev = GetReturns response" "status_code response = 200"
    "resp_json response = Inr data" "read_old_data f = (rd, Inr old_data)"
    "process_sections lib old_data (fetched_sections data) (Map.empty, [], []) = Inl (e, lt)"
  shows "process_shop_data lib ev f =
     (f, [Log Info MsgFetching, HttpGet] @ rd @
         [Log Info (MsgProcessing (length (fetched_sections data)))] @ lt @
         [handle_exception e])"
  using assms by (simp add: process_shop_data_def Let_def)

lemma save_data_events:
  "snd (save_data w nd f) = [OpenWrite nd, Log (if w = WriteOk then Info else Error)
      (case w of WriteOk \<Rightarrow> MsgSaved | OpenFails e \<Rightarrow> MsgSaveFailed e | DumpFails e \<Rightarrow> MsgSaveFailed e)]"
  by (simp add: save_data_def split: write_outcome.splits)

lemma loop_log_events:
  "filter dispatch_event
     (map (\<lambda>s. Log Info (MsgNewOrUpdated (display_name_of s) (section_id_of s))) xs) = [] \<and>
   filter is_write
     (map (\<lambda>s. Log Info (MsgNewOrUpdated (display_name_of s) (section_id_of s))) xs) = [] \<and>
   filter is_post
     (map (\<lambda>s. Log Info (MsgNewOrUpdated (display_name_of s) (section_id_of s))) xs) = []"
  by (induction xs) auto

section \<open>The examples, evaluated\<close>

lemma is_changed_absent:
  "old_data (section_id_of s) = None \<Longrightarrow>
     is_changed (old_section_of old_data (section_id_of s)) (new_section s)"
proof -
  assume "old_data (section_id_of s) = None"
  then have "without_dates (old_section_of old_data (section_id_of s)) ''display_name'' = None"
    by (simp add: old_section_of_def get_default_def without_dates_def)
  moreover have "without_dates (new_section s) ''display_name'' \<noteq> None"
    by (simp add: without_dates_def new_section_def)
  ultimately show ?thesis
    unfolding is_changed_def by metis
qed

lemma ex_embed_good:
  "create_embed_for_section ex_lib (ex_section ''2024-01-01T00:00:00+00:00'')
     (new_section (ex_section ''2024-01-01T00:00:00+00:00''))
   = Inr (ex_embed ''Featured'' ''<t:1704067200:R>'')"
  by (simp add: create_embed_new_section ex_section_parts ex_lib_def to_discord_timestamp_def
      str_int_def str_nat.simps digit_char_def embed_fields_def background_field_of_def
      ex_embed_def)


lemma ex_env_parts:
  "get_result (ex_env status secs) = GetReturns (ex_response status secs)"
  "post_result (ex_env status secs) i = PostReturns 204 []"
  "write_result (ex_env status secs) = WriteOk"
  "status_code (ex_response status secs) = status"
  "resp_json (ex_response status secs) = Inr \<lparr>shopData = Some \<lparr>sections = Some secs\<rparr>\<rparr>"
  "fetched_sections \<lparr>shopData = Some \<lparr>sections = Some secs\<rparr>\<rparr> = secs"
  by (simp_all add: ex_env_def ex_response_def fetched_sections_def get_default_def)

section \<open>The message layout\<close>

text \<open>
  C5. Whenever the embed of a section and its record is built, its fields are, by
  name and in order: Display Name, Section ID, then Category if the section has a
  category (a non-empty one, as the program tests it) and Background otherwise,
  then a Background field of its own exactly if there is a category, Group Count,
  Billboard exactly if the billboard count is positive, Context(s) and Possible
  Release Dates. The last two hold \<open>No Context\<close> and \<open>No Release Dates\<close> when
  their lists are empty.
\<close>

theorem embed_field_layout:
  "create_embed_for_section lib s (new_section s) = Inr e \<Longrightarrow>
     map fname (fields_of e) =
       spec_field_names (truthy (category s) \<noteq> None) (0 < billboard_of s) \<and>
     take 2 (fields_of e) =
       [Field ''**Display Name**'' (display_name_of s) True,
        Field ''**Section ID**'' (section_id_of s) True] \<and>
     fields_of e ! 2 =
       (case truthy (category s) of
          Some c \<Rightarrow> Field ''**Category**'' c True
        | None \<Rightarrow> Field ''**Background**'' (background_field_of s) True) \<and>
     (truthy (category s) \<noteq> None \<longleftrightarrow>
        fields_of e ! 3 = Field ''**Background**'' (background_field_of s) True) \<and>
     field_value e ''**Group Count**'' = Some (str_int (int (group_count_of s))) \<and>
     (field_value e ''**Billboard**'' \<noteq> None \<longleftrightarrow> 0 < billboard_of s) \<and>
     (0 < billboard_of s \<longrightarrow>
        field_value e ''**Billboard**'' = Some (str_int (int (billboard_of s)))) \<and>
     field_value e ''**Context(s)**'' =
       Some (if contexts_of s = [] then ''No Context'' else join newline (contexts_of s)) \<and>
     field_value e ''**Possible Release Dates**'' \<noteq> None \<and>
     (release_dates_of s = [] \<longrightarrow>
        field_value e ''**Possible Release Dates**'' = Some ''No Release Dates'')"
proof -
  assume "create_embed_for_section lib s (new_section s) = Inr e"
  then obtain dates where e: "e = Embed (embed_fields s dates)"
    and dates: "release_dates_of s = [] \<longrightarrow> dates = ''No Release Dates''"
    by (auto simp: create_embed_new_section split: sum.splits if_splits)
  have names: "map fname (fields_of e) =
      spec_field_names (truthy (category s) \<noteq> None) (0 < billboard_of s)"
    by (simp add: e embed_fields_names)
  have first: "take 2 (fields_of e) =
       [Field ''**Display Name**'' (display_name_of s) True,
        Field ''**Section ID**'' (section_id_of s) True]"
    by (simp add: e embed_fields_def)
  have third: "fields_of e ! 2 =
       (case truthy (category s) of
          Some c \<Rightarrow> Field ''**Category**'' c True
        | None \<Rightarrow> Field ''**Background**'' (background_field_of s) True)"
    by (simp add: e embed_fields_def numeral_2_eq_2 split: option.splits)
  have fourth: "truthy (category s) \<noteq> None \<longleftrightarrow>
        fields_of e ! 3 = Field ''**Background**'' (background_field_of s) True"
    by (simp add: e embed_fields_def numeral_3_eq_3 split: option.splits)
  have gc: "field_value e ''**Group Count**'' = Some (str_int (int (group_count_of s)))"
    by (simp add: e embed_fields_def field_value_def split: option.splits)
  have bb: "field_value e ''**Billboard**'' \<noteq> None \<longleftrightarrow> 0 < billboard_of s"
    by (cases "0 < billboard_of s")
      (simp_all add: e embed_fields_def field_value_def split: option.splits)
  have bbv: "0 < billboard_of s \<longrightarrow>
        field_value e ''**Billboard**'' = Some (str_int (int (billboard_of s)))"
    by (simp add: e embed_fields_def field_value_def split: option.splits)
  have ctx: "field_value e ''**Context(s)**'' =
       Some (if contexts_of s = [] then ''No Context'' else join newline (contexts_of s))"
    by (simp add: e embed_fields_def field_value_def split: option.splits)
  have rd: "field_value e ''**Possible Release Dates**'' = Some dates"
    by (simp add: e embed_fields_def field_value_def split: option.splits)
  from names first third fourth gc bb bbv ctx rd dates show ?thesis
    by simp
qed

theorem embed_field_layout_witness:
  "create_embed_for_section ex_lib (ex_section ''2024-01-01T00:00:00+00:00'')
     (new_section (ex_section ''2024-01-01T00:00:00+00:00''))
     = Inr (ex_embed ''Featured'' ''<t:1704067200:R>'') \<and>
   map fname (fields_of (ex_embed ''Featured'' ''<t:1704067200:R>'')) =
     [''**Display Name**'', ''**Section ID**'', ''**Category**'', ''**Background**'',
      ''**Group Count**'', ''**Billboard**'', ''**Context(s)**'',
      ''**Possible Release Dates**'']"
  using embed_field_layout [OF ex_embed_good]
  by (simp add: ex_embed_good ex_section_parts spec_field_names_def)

section \<open>Start dates that do not parse\<close>




lemma ex_loop_good:
  "process_sections ex_lib Map.empty [ex_section ''2024-01-01T00:00:00+00:00'']
     (Map.empty, [], []) =
     Inr ([''s1'' \<mapsto> new_section (ex_section ''2024-01-01T00:00:00+00:00'')],
          [ex_embed ''Featured'' ''<t:1704067200:R>''],
          [Log Info (MsgNewOrUpdated ''Featured'' ''s1'')])"
  using is_changed_absent [of Map.empty "ex_section ''2024-01-01T00:00:00+00:00''"] ex_embed_good
  by (simp add: Let_def ex_section_parts)


section \<open>Sections that the snapshot does not know\<close>




section \<open>The trace of a cycle\<close>

lemma handle_exception_event:
  "\<not> is_write (handle_exception e)" "\<not> is_post (handle_exception e)"
  "\<not> dispatch_event (handle_exception e)"
  by (cases e; simp add: handle_exception_def)+

lemma read_old_data_set:
  "read_old_data f = (rd, res) \<Longrightarrow> set rd \<subseteq> {OpenRead, Log Warning MsgNoPrevious}"
  by (auto simp: read_old_data_def split: snapshot_file.splits)

lemma split_at_write:
  "xs @ OpenWrite m # ys = A @ OpenWrite n # B \<Longrightarrow> filter is_write A = [] \<Longrightarrow>
     filter is_write B = [] \<Longrightarrow> xs = A \<and> m = n \<and> ys = B"
proof (induction A arbitrary: xs)
  case Nil
  then show ?case
    by (cases xs) (auto simp: filter_empty_conv)
next
  case (Cons a A)
  from Cons.prems(2) have a: "\<not> is_write a" and A: "filter is_write A = []"
    by (auto split: if_splits)
  show ?case
  proof (cases xs)
    case Nil
    with Cons.prems(1) a show ?thesis by auto
  next
    case (Cons x xs')
    with Cons.prems(1) have "x = a" and "xs' @ OpenWrite m # ys = A @ OpenWrite n # B"
      by simp_all
    with Cons.IH [OF this(2) A Cons.prems(3)] Cons show ?thesis by simp
  qed
qed

lemma process_shop_data_no_write_or_completed:
  "filter is_write (snd (process_shop_data lib ev f)) = [] \<or>
   (\<exists>response data rd old_data nd tasks lt.
      get_result ev = GetReturns response \<and> status_code response = 200 \<and>
      resp_json response = Inr data \<and> read_old_data f = (rd, Inr old_data) \<and>
      process_sections lib old_data (fetched_sections data) (Map.empty, [], []) =
        Inr (nd, tasks, lt) \<and>
      old_data \<noteq> nd)"
proof (cases "get_result ev")
  case (GetRaises m)
  then show ?thesis
    by (simp add: process_shop_data_def handle_exception_def)
next
  case (GetReturns response)
  show ?thesis
  proof (cases "status_code response = 200")
    case False
    with GetReturns show ?thesis
      by (simp add: process_shop_data_def)
  next
    case True
    show ?thesis
    proof (cases "resp_json response")
      case (Inl e)
      with GetReturns True show ?thesis
        by (simp add: process_shop_data_def handle_exception_event)
    next
      case (Inr data)
      obtain rd res where rd: "read_old_data f = (rd, res)"
        by (cases "read_old_data f")
      from read_old_data_events [OF rd] have rdw: "filter is_write rd = []"
        by simp
      show ?thesis
      proof (cases res)
        case (Inl e)
        with GetReturns True \<open>resp_json response = Inr data\<close> rd rdw show ?thesis
          by (simp add: process_shop_data_def handle_exception_event)
      next
        case old: (Inr old_data)
        from process_sections_cases [of lib old_data "fetched_sections data" "(Map.empty, [], [])"]
        show ?thesis
        proof (elim disjE exE)
          fix e lt
          assume loop: "process_sections lib old_data (fetched_sections data) (Map.empty, [], [])
            = Inl (e, lt)"
          from process_sections_Inl [OF loop] have "filter is_write lt = []"
            by (auto simp: filter_empty_conv)
          with process_shop_data_aborted [OF GetReturns True \<open>resp_json response = Inr data\<close>
              rd [unfolded old] loop] rdw
          show ?thesis
            by (simp add: handle_exception_event)
        next
          fix nd tasks lt
          assume loop: "process_sections lib old_data (fetched_sections data) (Map.empty, [], [])
            = Inr (nd, tasks, lt)"
          from process_sections_Inr [OF loop] have ltw: "filter is_write lt = []"
            by (simp add: loop_log_events)
          show ?thesis
          proof (cases "old_data = nd")
            case True
            with process_shop_data_completed [OF GetReturns \<open>status_code response = 200\<close>
                \<open>resp_json response = Inr data\<close> rd [unfolded old] loop] rdw ltw
            show ?thesis
              by (simp add: gather_no_write)
          next
            case False
            with GetReturns \<open>status_code response = 200\<close> \<open>resp_json response = Inr data\<close>
              rd old loop
            show ?thesis by blast
          qed
        qed
      qed
    qed
  qed
qed

section \<open>Persistence\<close>

lemma completed_cycle:
  "get_result ev = GetReturns response \<and> status_code response = 200 \<and>
   resp_json response = Inr data \<and> read_old_data f = (rd, Inr old_data) \<and>
   process_sections lib old_data (fetched_sections data) (Map.empty, [], []) =
     Inr (new_data, tasks, lt)
   \<longrightarrow>
   ((\<exists>m. OpenWrite m \<in> set (snd (process_shop_data lib ev f))) \<longleftrightarrow> old_data \<noteq> new_data) \<and>
   filter is_write (snd (process_shop_data lib ev f)) =
     (if old_data \<noteq> new_data then [OpenWrite new_data] else []) \<and>
   (old_data \<noteq> new_data \<and> write_result ev = WriteOk \<longrightarrow>
      fst (process_shop_data lib ev f) = Content new_data) \<and>
   (old_data = new_data \<longrightarrow> fst (process_shop_data lib ev f) = f) \<and>
   filter is_post (snd (process_shop_data lib ev f)) = map HttpPost tasks \<and>
   new_data = new_data_of (fetched_sections data) Map.empty"
proof (intro impI)
  assume a: "get_result ev = GetReturns response \<and> status_code response = 200 \<and>
   resp_json response = Inr data \<and> read_old_data f = (rd, Inr old_data) \<and>
   process_sections lib old_data (fetched_sections data) (Map.empty, [], []) =
     Inr (new_data, tasks, lt)"
  then have loop: "process_sections lib old_data (fetched_sections data) (Map.empty, [], []) =
     Inr (new_data, tasks, lt)" by simp
  from a have rd: "read_old_data f = (rd, Inr old_data)" by simp
  from read_old_data_events [OF rd] have rdw: "filter is_write rd = []"
    and rdp: "filter is_post rd = []" by simp_all
  from process_sections_Inr [OF loop] have ltw: "filter is_write lt = []"
    and ltp: "filter is_post lt = []"
    and nd: "new_data = new_data_of (fetched_sections data) Map.empty"
    by (simp_all add: loop_log_events)
  have tr: "process_shop_data lib ev f =
     (if old_data \<noteq> new_data then
        (fst (save_data (write_result ev) new_data f),
         [Log Info MsgFetching, HttpGet] @ rd @
         [Log Info (MsgProcessing (length (fetched_sections data)))] @ lt @
         gather (post_result ev) 0 tasks @ [Log Info MsgNewData] @
         snd (save_data (write_result ev) new_data f))
      else
        (f, [Log Info MsgFetching, HttpGet] @ rd @
            [Log Info (MsgProcessing (length (fetched_sections data)))] @ lt @
            gather (post_result ev) 0 tasks @ [Log Info MsgNoChanges]))"
    using a process_shop_data_completed [of ev response data f rd old_data lib new_data tasks lt]
    by blast
  have writes: "filter is_write (snd (process_shop_data lib ev f)) =
     (if old_data \<noteq> new_data then [OpenWrite new_data] else [])"
    by (simp add: tr rdw ltw gather_no_write save_data_events)
  have posts: "filter is_post (snd (process_shop_data lib ev f)) = map HttpPost tasks"
    by (simp add: tr rdp ltp gather_filter_posts save_data_events)
  have "(\<exists>m. OpenWrite m \<in> set (snd (process_shop_data lib ev f))) \<longleftrightarrow>
      filter is_write (snd (process_shop_data lib ev f)) \<noteq> []"
  proof
    assume "\<exists>m. OpenWrite m \<in> set (snd (process_shop_data lib ev f))"
    then obtain m where "OpenWrite m \<in> set (snd (process_shop_data lib ev f))" ..
    moreover have "is_write (OpenWrite m)" by simp
    ultimately show "filter is_write (snd (process_shop_data lib ev f)) \<noteq> []"
      unfolding filter_empty_conv by blast
  next
    assume "filter is_write (snd (process_shop_data lib ev f)) \<noteq> []"
    with writes have "OpenWrite new_data \<in> set (filter is_write (snd (process_shop_data lib ev f)))"
      by (auto split: if_splits)
    then show "\<exists>m. OpenWrite m \<in> set (snd (process_shop_data lib ev f))"
      by auto
  qed
  with writes have iff: "(\<exists>m. OpenWrite m \<in> set (snd (process_shop_data lib ev f))) \<longleftrightarrow>
      old_data \<noteq> new_data"
    by simp
  have ok: "old_data \<noteq> new_data \<and> write_result ev = WriteOk \<longrightarrow>
      fst (process_shop_data lib ev f) = Content new_data"
    by (simp add: tr save_data_def)
  have same: "old_data = new_data \<longrightarrow> fst (process_shop_data lib ev f) = f"
    by (simp add: tr)
  from iff writes ok same posts nd
  show "((\<exists>m. OpenWrite m \<in> set (snd (process_shop_data lib ev f))) \<longleftrightarrow> old_data \<noteq> new_data) \<and>
   filter is_write (snd (process_shop_data lib ev f)) =
     (if old_data \<noteq> new_data then [OpenWrite new_data] else []) \<and>
   (old_data \<noteq> new_data \<and> write_result ev = WriteOk \<longrightarrow>
      fst (process_shop_data lib ev f) = Content new_data) \<and>
   (old_data = new_data \<longrightarrow> fst (process_shop_data lib ev f) = f) \<and>
   filter is_post (snd (process_shop_data lib ev f)) = map HttpPost tasks \<and>
   new_data = new_data_of (fetched_sections data) Map.empty"
    by blast
qed

text \<open>
  C2. In a cycle that fetched, loaded and went through its sections, the snapshot
  file is opened for writing exactly if the new mapping differs from the loaded
  one (records compared in full, release dates included), and what is written is
  the new mapping: with a successful write the file holds exactly it. When the two
  mappings are equal the file is as before and is not opened for writing, however
  many embeds the cycle posted.
\<close>

theorem snapshot_written_iff_mapping_changed:
  "get_result ev = GetReturns response \<and> status_code response = 200 \<and>
   resp_json response = Inr data \<and> read_old_data f = (rd, Inr old_data) \<and>
   process_sections lib old_data (fetched_sections data) (Map.empty, [], []) =
     Inr (new_data, tasks, lt)
   \<longrightarrow>
   ((\<exists>m. OpenWrite m \<in> set (snd (process_shop_data lib ev f))) \<longleftrightarrow> old_data \<noteq> new_data) \<and>
   filter is_write (snd (process_shop_data lib ev f)) =
     (if old_data \<noteq> new_data then [OpenWrite new_data] else []) \<and>
   (old_data \<noteq> new_data \<and> write_result ev = WriteOk \<longrightarrow>
      fst (process_shop_data lib ev f) = Content new_data) \<and>
   (old_data = new_data \<longrightarrow> fst (process_shop_data lib ev f) = f) \<and>
   filter is_post (snd (process_shop_data lib ev f)) = map HttpPost tasks \<and>
   new_data = new_data_of (fetched_sections data) Map.empty"
  by (rule completed_cycle)

text \<open>
  C3. In the trace of any cycle, whatever comes after the opening of the snapshot
  file for writing is no step of a dispatch attempt, and the file is opened for
  writing at most once. What comes before it holds every dispatch attempt of the
  cycle in full: the attempts for all the embeds that the loop queued, each with
  its POST, the line for its outcome and its cooldown.
\<close>

theorem snapshot_written_after_all_dispatches:
  "process_shop_data lib ev f = (f', xs @ OpenWrite m # ys) \<longrightarrow>
     filter dispatch_event ys = [] \<and> filter is_write xs = [] \<and> filter is_write ys = [] \<and>
     (\<exists>response data rd old_data tasks lt.
        get_result ev = GetReturns response \<and> resp_json response = Inr data \<and>
        read_old_data f = (rd, Inr old_data) \<and>
        process_sections lib old_data (fetched_sections data) (Map.empty, [], []) =
          Inr (m, tasks, lt) \<and>
        filter dispatch_event xs = gather (post_result ev) 0 tasks)"
proof
  assume tr: "process_shop_data lib ev f = (f', xs @ OpenWrite m # ys)"
  then have "filter is_write (snd (process_shop_data lib ev f)) \<noteq> []"
    by simp
  with process_shop_data_no_write_or_completed [of lib ev f]
  obtain response data rd old_data nd tasks lt where
    c: "get_result ev = GetReturns response" "status_code response = 200"
      "resp_json response = Inr data" "read_old_data f = (rd, Inr old_data)"
      "process_sections lib old_data (fetched_sections data) (Map.empty, [], []) =
        Inr (nd, tasks, lt)"
    and ne: "old_data \<noteq> nd"
    by blast
  let ?A = "[Log Info MsgFetching, HttpGet] @ rd @
         [Log Info (MsgProcessing (length (fetched_sections data)))] @ lt @
         gather (post_result ev) 0 tasks @ [Log Info MsgNewData]"
  let ?L = "Log (if write_result ev = WriteOk then Info else Error)
      (case write_result ev of WriteOk \<Rightarrow> MsgSaved | OpenFails e \<Rightarrow> MsgSaveFailed e
       | DumpFails e \<Rightarrow> MsgSaveFailed e)"
  from process_shop_data_completed [OF c] ne tr
  have eq: "xs @ OpenWrite m # ys = ?A @ OpenWrite nd # [?L]"
    by (simp add: save_data_events)
  from read_old_data_events [OF c(4)] have rdw: "filter is_write rd = []"
    and rdd: "filter dispatch_event rd = []" by simp_all
  from process_sections_Inr [OF c(5)] have ltw: "filter is_write lt = []"
    and ltd: "filter dispatch_event lt = []"
    by (simp_all add: loop_log_events)
  have Aw: "filter is_write ?A = []"
    by (simp add: rdw ltw gather_no_write)
  have Lw: "filter is_write [?L] = []"
    by simp
  from split_at_write [OF eq Aw Lw] have xs: "xs = ?A" and m: "m = nd" and ys: "ys = [?L]"
    by simp_all
  have d_ys: "filter dispatch_event ys = []"
    by (simp add: ys split: write_outcome.splits)
  have d_xs: "filter dispatch_event xs = gather (post_result ev) 0 tasks"
    by (simp add: xs rdd ltd gather_dispatch)
  from d_ys d_xs Aw Lw xs ys m c
  show "filter dispatch_event ys = [] \<and> filter is_write xs = [] \<and> filter is_write ys = [] \<and>
     (\<exists>response data rd old_data tasks lt.
        get_result ev = GetReturns response \<and> resp_json response = Inr data \<and>
        read_old_data f = (rd, Inr old_data) \<and>
        process_sections lib old_data (fetched_sections data) (Map.empty, [], []) =
          Inr (m, tasks, lt) \<and>
        filter dispatch_event xs = gather (post_result ev) 0 tasks)"
    by blast
qed

section \<open>More examples, evaluated\<close>

lemma ex_renamed_parts:
  "display_name_of (ex_renamed d) = ''Daily''"
  "section_id_of (ex_renamed d) = ''s1''"
  "truthy (category (ex_renamed d)) = Some ''Featured''"
  "truthy (background_url_of (ex_renamed d)) = Some ''http://bg''"
  "group_count_of (ex_renamed d) = 3"
  "billboard_of (ex_renamed d) = 2"
  "contexts_of (ex_renamed d) = [''A'', ''B'']"
  "release_dates_of (ex_renamed d) = (if d = [] then [] else [d])"
  by (simp_all add: ex_renamed_def ex_section_def ex_ranks_def display_name_of_def
      section_id_of_def truthy_def get_default_def background_url_of_def offer_groups_of_def
      stack_ranks_of_def group_count_of_def billboard_of_def contexts_of_def
      release_dates_of_def)

lemma ex_renamed_embed:
  "create_embed_for_section ex_lib (ex_renamed ''2024-01-01T00:00:00+00:00'')
     (new_section (ex_renamed ''2024-01-01T00:00:00+00:00''))
   = Inr (ex_embed ''Daily'' ''<t:1704067200:R>'')"
  by (simp add: create_embed_new_section ex_renamed_parts ex_lib_def to_discord_timestamp_def
      str_int_def str_nat.simps digit_char_def embed_fields_def background_field_of_def
      ex_embed_def)

lemma ex_old_entry:
  "old_section_of ex_old ''s1'' = new_section (ex_section ''2024-01-01T00:00:00+00:00'')"
  by (simp add: old_section_of_def ex_old_def get_default_def)

lemma ex_renamed_changed:
  "is_changed (old_section_of ex_old ''s1'')
     (new_section (ex_renamed ''2024-01-01T00:00:00+00:00''))"
proof -
  have "without_dates (new_section (ex_section ''2024-01-01T00:00:00+00:00'')) ''display_name''
      \<noteq> without_dates (new_section (ex_renamed ''2024-01-01T00:00:00+00:00'')) ''display_name''"
    by (simp add: without_dates_def new_section_def ex_section_parts ex_renamed_parts)
  then show ?thesis
    unfolding is_changed_def ex_old_entry by metis
qed

lemma ex_same_unchanged:
  "\<not> is_changed (old_section_of ex_old ''s1'')
       (new_section (ex_section ''2024-01-01T00:00:00+00:00''))"
  by (simp add: is_changed_def ex_old_entry)

lemma ex_loop_twice:
  "process_sections ex_lib ex_old
     [ex_renamed ''2024-01-01T00:00:00+00:00'', ex_section ''2024-01-01T00:00:00+00:00'']
     (Map.empty, [], []) =
   Inr (ex_old, [ex_embed ''Daily'' ''<t:1704067200:R>''],
        [Log Info (MsgNewOrUpdated ''Daily'' ''s1'')])"
  using ex_renamed_changed ex_same_unchanged ex_renamed_embed
  by (simp add: Let_def ex_section_parts ex_renamed_parts ex_old_def [symmetric])

lemma ex_cycle_new:
  "process_shop_data ex_lib (ex_env 200 [ex_section ''2024-01-01T00:00:00+00:00'']) FileNotFound =
     (Content ex_old,
      [Log Info MsgFetching, HttpGet, OpenRead, Log Warning MsgNoPrevious,
       Log Info (MsgProcessing 1), Log Info (MsgNewOrUpdated ''Featured'' ''s1''),
       HttpPost (ex_embed ''Featured'' ''<t:1704067200:R>''), Log Info MsgSent, Sleep 1,
       Log Info MsgNewData] @
      OpenWrite ex_old # [Log Info MsgSaved])"
proof -
  let ?s = "ex_section ''2024-01-01T00:00:00+00:00''"
  have rd: "read_old_data FileNotFound = ([OpenRead, Log Warning MsgNoPrevious], Inr Map.empty)"
    by (simp add: read_old_data_def)
  have loop: "process_sections ex_lib Map.empty
      (fetched_sections \<lparr>shopData = Some \<lparr>sections = Some [?s]\<rparr>\<rparr>) (Map.empty, [], []) =
     Inr (ex_old, [ex_embed ''Featured'' ''<t:1704067200:R>''],
          [Log Info (MsgNewOrUpdated ''Featured'' ''s1'')])"
    by (simp only: ex_env_parts ex_loop_good ex_old_def)
  have ne: "Map.empty \<noteq> ex_old"
  proof
    assume "Map.empty = ex_old"
    then have "Map.empty ''s1'' = ex_old ''s1''" by (rule fun_cong)
    then show False by (simp add: ex_old_def)
  qed
  from process_shop_data_completed
    [of "ex_env 200 [?s]" "ex_response 200 [?s]"
        "\<lparr>shopData = Some \<lparr>sections = Some [?s]\<rparr>\<rparr>" FileNotFound
        "[OpenRead, Log Warning MsgNoPrevious]" Map.empty ex_lib ex_old
        "[ex_embed ''Featured'' ''<t:1704067200:R>'']"
        "[Log Info (MsgNewOrUpdated ''Featured'' ''s1'')]"]
    rd loop ne
  show ?thesis
    by (simp add: ex_env_parts save_data_def send_to_discord_def)
qed

theorem snapshot_written_iff_mapping_changed_witness:
  "process_sections ex_lib ex_old
     [ex_renamed ''2024-01-01T00:00:00+00:00'', ex_section ''2024-01-01T00:00:00+00:00'']
     (Map.empty, [], []) =
     Inr (ex_old, [ex_embed ''Daily'' ''<t:1704067200:R>''],
          [Log Info (MsgNewOrUpdated ''Daily'' ''s1'')]) \<and>
   fst (process_shop_data ex_lib
          (ex_env 200 [ex_renamed ''2024-01-01T00:00:00+00:00'',
                       ex_section ''2024-01-01T00:00:00+00:00''])
          (Content ex_old)) = Content ex_old \<and>
   filter is_write
     (snd (process_shop_data ex_lib
             (ex_env 200 [ex_renamed ''2024-01-01T00:00:00+00:00'',
                          ex_section ''2024-01-01T00:00:00+00:00''])
             (Content ex_old))) = [] \<and>
   filter is_post
     (snd (process_shop_data ex_lib
             (ex_env 200 [ex_renamed ''2024-01-01T00:00:00+00:00'',
                          ex_section ''2024-01-01T00:00:00+00:00''])
             (Content ex_old))) = [HttpPost (ex_embed ''Daily'' ''<t:1704067200:R>'')]"
proof -
  let ?secs = "[ex_renamed ''2024-01-01T00:00:00+00:00'', ex_section ''2024-01-01T00:00:00+00:00'']"
  have h: "get_result (ex_env 200 ?secs) = GetReturns (ex_response 200 ?secs) \<and>
    status_code (ex_response 200 ?secs) = 200 \<and>
    resp_json (ex_response 200 ?secs) = Inr \<lparr>shopData = Some \<lparr>sections = Some ?secs\<rparr>\<rparr> \<and>
    read_old_data (Content ex_old) = ([OpenRead], Inr ex_old) \<and>
    process_sections ex_lib ex_old
      (fetched_sections \<lparr>shopData = Some \<lparr>sections = Some ?secs\<rparr>\<rparr>) (Map.empty, [], []) =
      Inr (ex_old, [ex_embed ''Daily'' ''<t:1704067200:R>''],
           [Log Info (MsgNewOrUpdated ''Daily'' ''s1'')])"
    using ex_loop_twice
    by (simp add: ex_env_parts read_old_data_def del: process_sections.simps)
  from snapshot_written_iff_mapping_changed
    [where ev = "ex_env 200 ?secs" and response = "ex_response 200 ?secs"
       and data = "\<lparr>shopData = Some \<lparr>sections = Some ?secs\<rparr>\<rparr>"
       and f = "Content ex_old" and rd = "[OpenRead]" and old_data = ex_old and lib = ex_lib
       and new_data = ex_old and tasks = "[ex_embed ''Daily'' ''<t:1704067200:R>'']"
       and lt = "[Log Info (MsgNewOrUpdated ''Daily'' ''s1'')]"] h ex_loop_twice
  show ?thesis
    by (simp del: process_sections.simps)
qed

theorem snapshot_written_after_all_dispatches_witness:
  "process_shop_data ex_lib (ex_env 200 [ex_section ''2024-01-01T00:00:00+00:00'']) FileNotFound =
     (Content ex_old,
      [Log Info MsgFetching, HttpGet, OpenRead, Log Warning MsgNoPrevious,
       Log Info (MsgProcessing 1), Log Info (MsgNewOrUpdated ''Featured'' ''s1''),
       HttpPost (ex_embed ''Featured'' ''<t:1704067200:R>''), Log Info MsgSent, Sleep 1,
       Log Info MsgNewData] @
      OpenWrite ex_old # [Log Info MsgSaved]) \<and>
   filter dispatch_event [Log Info MsgSaved] = [] \<and>
   filter dispatch_event
     [Log Info MsgFetching, HttpGet, OpenRead, Log Warning MsgNoPrevious,
      Log Info (MsgProcessing 1), Log Info (MsgNewOrUpdated ''Featured'' ''s1''),
      HttpPost (ex_embed ''Featured'' ''<t:1704067200:R>''), Log Info MsgSent, Sleep 1,
      Log Info MsgNewData] =
     [HttpPost (ex_embed ''Featured'' ''<t:1704067200:R>''), Log Info MsgSent, Sleep 1]"
  using snapshot_written_after_all_dispatches
    [of ex_lib "ex_env 200 [ex_section ''2024-01-01T00:00:00+00:00'']" FileNotFound
        "Content ex_old"
        "[Log Info MsgFetching, HttpGet, OpenRead, Log Warning MsgNoPrevious,
          Log Info (MsgProcessing 1), Log Info (MsgNewOrUpdated ''Featured'' ''s1''),
          HttpPost (ex_embed ''Featured'' ''<t:1704067200:R>''), Log Info MsgSent, Sleep 1,
          Log Info MsgNewData]"
        ex_old "[Log Info MsgSaved]"]
    ex_cycle_new
  by simp

section \<open>Sections that are no longer fetched\<close>

lemma aborted_cycle:
  assumes "get_result ev = GetReturns response" "status_code response = 200"
    "resp_json response = Inr data" "read_old_data f = (rd, Inr old_data)"
    "process_sections lib old_data (fetched_sections data) (Map.empty, [], []) = Inl (e, lt)"
  shows "fst (process_shop_data lib ev f) = f \<and>
    filter is_post (snd (process_shop_data lib ev f)) = [] \<and>
    filter is_write (snd (process_shop_data lib ev f)) = []"
proof -
  from read_old_data_events [OF assms(4)] have "filter is_post rd = []" "filter is_write rd = []"
    by simp_all
  moreover from process_sections_Inl [OF assms(5)]
  have "filter is_post lt = []" "filter is_write lt = []"
    by (auto simp: filter_empty_conv)
  ultimately show ?thesis
    using process_shop_data_aborted [OF assms]
    by (simp add: handle_exception_event)
qed

lemma member_filter:
  "x \<in> set xs \<Longrightarrow> P x \<Longrightarrow> x \<in> set (filter P xs)"
  by simp

text \<open>
  C10. In a cycle that fetched and loaded, an identifier that the snapshot holds
  and that no fetched section carries gets no embed (no posted embed has it as its
  Section ID) and is absent from any mapping handed to the write; if the loop went
  through, the cycle writes exactly one mapping, which lacks the identifier, and
  with a successful write the file holds it. A body without \<open>shopData\<close> or
  without \<open>sections\<close> gives the empty list of sections; with an empty list and a
  loaded snapshot that is not empty, nothing is posted and the empty mapping is
  written.
\<close>

theorem removed_sections_are_silent:
  "(get_result ev = GetReturns response \<and> status_code response = 200 \<and>
    resp_json response = Inr data \<and> read_old_data f = (rd, Inr old_data) \<and>
    old_data sid \<noteq> None \<and> sid \<notin> section_id_of ` set (fetched_sections data)
    \<longrightarrow>
    (\<forall>e. HttpPost e \<in> set (snd (process_shop_data lib ev f)) \<longrightarrow>
         field_value e ''**Section ID**'' \<noteq> Some sid) \<and>
    (\<forall>m. OpenWrite m \<in> set (snd (process_shop_data lib ev f)) \<longrightarrow> m sid = None) \<and>
    ((\<exists>nd tasks lt.
        process_sections lib old_data (fetched_sections data) (Map.empty, [], []) =
          Inr (nd, tasks, lt)) \<longrightarrow>
     (\<exists>nd. nd sid = None \<and>
        filter is_write (snd (process_shop_data lib ev f)) = [OpenWrite nd] \<and>
        (write_result ev = WriteOk \<longrightarrow> fst (process_shop_data lib ev f) = Content nd))))
   \<and>
   ((shopData b = None \<or> (\<exists>sd. shopData b = Some sd \<and> sections sd = None)) \<longrightarrow>
      fetched_sections b = [])
   \<and>
   (get_result ev = GetReturns response \<and> status_code response = 200 \<and>
    resp_json response = Inr data \<and> read_old_data f = (rd, Inr old_data) \<and>
    fetched_sections data = [] \<and> old_data \<noteq> Map.empty
    \<longrightarrow>
    filter is_post (snd (process_shop_data lib ev f)) = [] \<and>
    filter is_write (snd (process_shop_data lib ev f)) = [OpenWrite Map.empty] \<and>
    (write_result ev = WriteOk \<longrightarrow> fst (process_shop_data lib ev f) = Content Map.empty))"
proof (intro conjI)
  show "get_result ev = GetReturns response \<and> status_code response = 200 \<and>
    resp_json response = Inr data \<and> read_old_data f = (rd, Inr old_data) \<and>
    old_data sid \<noteq> None \<and> sid \<notin> section_id_of ` set (fetched_sections data)
    \<longrightarrow>
    (\<forall>e. HttpPost e \<in> set (snd (process_shop_data lib ev f)) \<longrightarrow>
         field_value e ''**Section ID**'' \<noteq> Some sid) \<and>
    (\<forall>m. OpenWrite m \<in> set (snd (process_shop_data lib ev f)) \<longrightarrow> m sid = None) \<and>
    ((\<exists>nd tasks lt.
        process_sections lib old_data (fetched_sections data) (Map.empty, [], []) =
          Inr (nd, tasks, lt)) \<longrightarrow>
     (\<exists>nd. nd sid = None \<and>
        filter is_write (snd (process_shop_data lib ev f)) = [OpenWrite nd] \<and>
        (write_result ev = WriteOk \<longrightarrow> fst (process_shop_data lib ev f) = Content nd)))"
  proof
    assume a: "get_result ev = GetReturns response \<and> status_code response = 200 \<and>
      resp_json response = Inr data \<and> read_old_data f = (rd, Inr old_data) \<and>
      old_data sid \<noteq> None \<and> sid \<notin> section_id_of ` set (fetched_sections data)"
    let ?tr = "snd (process_shop_data lib ev f)"
    from process_sections_cases [of lib old_data "fetched_sections data" "(Map.empty, [], [])"]
    show "(\<forall>e. HttpPost e \<in> set ?tr \<longrightarrow> field_value e ''**Section ID**'' \<noteq> Some sid) \<and>
      (\<forall>m. OpenWrite m \<in> set ?tr \<longrightarrow> m sid = None) \<and>
      ((\<exists>nd tasks lt.
          process_sections lib old_data (fetched_sections data) (Map.empty, [], []) =
            Inr (nd, tasks, lt)) \<longrightarrow>
       (\<exists>nd. nd sid = None \<and> filter is_write ?tr = [OpenWrite nd] \<and>
          (write_result ev = WriteOk \<longrightarrow> fst (process_shop_data lib ev f) = Content nd)))"
    proof (elim disjE exE)
      fix e lt
      assume loop: "process_sections lib old_data (fetched_sections data) (Map.empty, [], [])
        = Inl (e, lt)"
      from a loop have ab: "filter is_post ?tr = []" "filter is_write ?tr = []"
        using aborted_cycle [of ev response data f rd old_data lib e lt] by simp_all
      have "\<forall>e. HttpPost e \<notin> set ?tr"
        using ab(1) member_filter [of _ ?tr is_post] by fastforce
      moreover have "\<forall>m. OpenWrite m \<notin> set ?tr"
        using ab(2) member_filter [of _ ?tr is_write] by fastforce
      ultimately show ?thesis
        using loop by simp
    next
      fix nd tasks lt
      assume loop: "process_sections lib old_data (fetched_sections data) (Map.empty, [], [])
        = Inr (nd, tasks, lt)"
      from a loop have cc:
        "filter is_write ?tr = (if old_data \<noteq> nd then [OpenWrite nd] else [])"
        "old_data \<noteq> nd \<and> write_result ev = WriteOk \<longrightarrow>
           fst (process_shop_data lib ev f) = Content nd"
        "filter is_post ?tr = map HttpPost tasks"
        "nd = new_data_of (fetched_sections data) Map.empty"
        using completed_cycle [of ev response data f rd old_data lib nd tasks lt] by simp_all
      from a cc(4) have nd_sid: "nd sid = None"
        by (simp add: new_data_of_other)
      with a have ne: "old_data \<noteq> nd" by auto
      have posts: "\<forall>e. HttpPost e \<in> set ?tr \<longrightarrow> field_value e ''**Section ID**'' \<noteq> Some sid"
      proof (intro allI impI)
        fix e
        assume "HttpPost e \<in> set ?tr"
        then have "HttpPost e \<in> set (filter is_post ?tr)" by simp
        with cc(3) have "e \<in> set tasks" by auto
        then have "Inr e \<in> set (map (\<lambda>s. create_embed_for_section lib s (new_section s))
            (changed_sections old_data (fetched_sections data)))"
          using process_sections_tasks [OF loop] by simp
        then obtain s where s: "s \<in> set (fetched_sections data)"
          "create_embed_for_section lib s (new_section s) = Inr e"
          by (auto simp: changed_sections_def)
        from create_embed_section_id [OF s(2)] s(1) a
        show "field_value e ''**Section ID**'' \<noteq> Some sid"
          by auto
      qed
      have writes: "\<forall>m. OpenWrite m \<in> set ?tr \<longrightarrow> m sid = None"
      proof (intro allI impI)
        fix m
        assume "OpenWrite m \<in> set ?tr"
        then have "OpenWrite m \<in> set (filter is_write ?tr)" by simp
        with cc(1) ne have "m = nd" by simp
        with nd_sid show "m sid = None" by simp
      qed
      from posts writes cc(1,2) ne nd_sid show ?thesis
        by auto
    qed
  qed
next
  show "(shopData b = None \<or> (\<exists>sd. shopData b = Some sd \<and> sections sd = None)) \<longrightarrow>
      fetched_sections b = []"
    by (auto simp: fetched_sections_def get_default_def)
next
  show "get_result ev = GetReturns response \<and> status_code response = 200 \<and>
    resp_json response = Inr data \<and> read_old_data f = (rd, Inr old_data) \<and>
    fetched_sections data = [] \<and> old_data \<noteq> Map.empty
    \<longrightarrow>
    filter is_post (snd (process_shop_data lib ev f)) = [] \<and>
    filter is_write (snd (process_shop_data lib ev f)) = [OpenWrite Map.empty] \<and>
    (write_result ev = WriteOk \<longrightarrow> fst (process_shop_data lib ev f) = Content Map.empty)"
  proof
    assume a: "get_result ev = GetReturns response \<and> status_code response = 200 \<and>
      resp_json response = Inr data \<and> read_old_data f = (rd, Inr old_data) \<and>
      fetched_sections data = [] \<and> old_data \<noteq> Map.empty"
    then have "process_sections lib old_data (fetched_sections data) (Map.empty, [], []) =
      Inr (Map.empty, [], [])" by simp
    with a show "filter is_post (snd (process_shop_data lib ev f)) = [] \<and>
      filter is_write (snd (process_shop_data lib ev f)) = [OpenWrite Map.empty] \<and>
      (write_result ev = WriteOk \<longrightarrow> fst (process_shop_data lib ev f) = Content Map.empty)"
      using completed_cycle [of ev response data f rd old_data lib Map.empty "[]" "[]"]
      by simp
  qed
qed

theorem removed_sections_are_silent_witness:
  "(\<exists>nd. nd ''s1'' = None \<and>
      filter is_write (snd (process_shop_data ex_lib (ex_env 200 [ex_bare]) (Content ex_old)))
        = [OpenWrite nd] \<and>
      fst (process_shop_data ex_lib (ex_env 200 [ex_bare]) (Content ex_old)) = Content nd) \<and>
   fetched_sections \<lparr>shopData = None\<rparr> = [] \<and>
   filter is_post (snd (process_shop_data ex_lib ex_env_no_shop (Content ex_old))) = [] \<and>
   filter is_write (snd (process_shop_data ex_lib ex_env_no_shop (Content ex_old)))
     = [OpenWrite Map.empty] \<and>
   fst (process_shop_data ex_lib ex_env_no_shop (Content ex_old)) = Content Map.empty"
proof -
  have rd: "read_old_data (Content ex_old) = ([OpenRead], Inr ex_old)"
    by (simp add: read_old_data_def)
  have old: "ex_old ''s1'' \<noteq> None" "ex_old \<noteq> Map.empty"
    by (simp_all add: ex_old_def)
  have ids: "''s1'' \<notin> section_id_of `
      set (fetched_sections \<lparr>shopData = Some \<lparr>sections = Some [ex_bare]\<rparr>\<rparr>)"
    by (simp add: ex_env_parts section_id_of_def ex_bare_def get_default_def)
  have "release_dates_of ex_bare = []"
    by (simp add: release_dates_of_def stack_ranks_of_def ex_bare_def get_default_def
        empty_metadata_def)
  then have "\<forall>s \<in> set (changed_sections ex_old
        (fetched_sections \<lparr>shopData = Some \<lparr>sections = Some [ex_bare]\<rparr>\<rparr>)).
      \<exists>e. create_embed_for_section ex_lib s (new_section s) = Inr e"
    using create_embed_good [of ex_bare ex_lib]
    by (simp add: ex_env_parts changed_sections_def)
  from process_sections_good [OF this]
  have loop: "\<exists>nd tasks lt. process_sections ex_lib ex_old
      (fetched_sections \<lparr>shopData = Some \<lparr>sections = Some [ex_bare]\<rparr>\<rparr>) (Map.empty, [], []) =
      Inr (nd, tasks, lt)"
    by blast
  have empty: "fetched_sections \<lparr>shopData = None\<rparr> = []"
    by (simp add: fetched_sections_def)
  have env: "get_result ex_env_no_shop = GetReturns (Response 200 ''{}'' (Inr \<lparr>shopData = None\<rparr>))"
    "write_result ex_env_no_shop = WriteOk"
    by (simp_all add: ex_env_no_shop_def)
  from removed_sections_are_silent
    [where ev = "ex_env 200 [ex_bare]" and response = "ex_response 200 [ex_bare]"
       and data = "\<lparr>shopData = Some \<lparr>sections = Some [ex_bare]\<rparr>\<rparr>"
       and f = "Content ex_old" and rd = "[OpenRead]" and old_data = ex_old
       and sid = "''s1''" and lib = ex_lib and b = "\<lparr>shopData = None\<rparr>"]
    rd old ids loop
  have part1: "\<exists>nd. nd ''s1'' = None \<and>
      filter is_write (snd (process_shop_data ex_lib (ex_env 200 [ex_bare]) (Content ex_old)))
        = [OpenWrite nd] \<and>
      fst (process_shop_data ex_lib (ex_env 200 [ex_bare]) (Content ex_old)) = Content nd"
    by (simp add: ex_env_parts)
  from removed_sections_are_silent
    [where ev = ex_env_no_shop and response = "Response 200 ''{}'' (Inr \<lparr>shopData = None\<rparr>)"
       and data = "\<lparr>shopData = None\<rparr>"
       and f = "Content ex_old" and rd = "[OpenRead]" and old_data = ex_old
       and lib = ex_lib and b = "\<lparr>shopData = None\<rparr>"]
    rd old empty env
  have part3: "filter is_post (snd (process_shop_data ex_lib ex_env_no_shop (Content ex_old))) = [] \<and>
   filter is_write (snd (process_shop_data ex_lib ex_env_no_shop (Content ex_old)))
     = [OpenWrite Map.empty] \<and>
   fst (process_shop_data ex_lib ex_env_no_shop (Content ex_old)) = Content Map.empty"
    by simp
  from part1 empty part3 show ?thesis by blast
qed

end
